theory Spec2Isabelle
  imports Main
begin

section \<open>Exceptions\<close>

text \<open>
  The exceptions that \<^verbatim>\<open>willow/image.py\<close> raises or catches. A raise of the source is
  the \<open>Inl\<close> branch of a result \<open>exn + 'a\<close>. \<open>LookupError\<close>, \<open>KeyError\<close> and \<open>IndexError\<close>
  are Python's lookup errors (the last two are subclasses of the first), which the clause
  \<^verbatim>\<open>except LookupError\<close> of \<^verbatim>\<open>Image.__getattr__\<close> catches alike. The two messages of
  \<^verbatim>\<open>UnrecognisedImageFormatError\<close> are kept apart by a constructor each;
  \<open>AttributeError c a\<close> stands for the message
  \<^verbatim>\<open>"%r object has no attribute %r" % (c, a)\<close>. \<open>OtherError\<close> is any other exception
  that a converter, an operation or the registry raises.
\<close>

datatype format_message =
    Cannot_load string
  | Unknown_image_format

datatype exn =
    LookupError string
  | KeyError string
  | IndexError string
  | AttributeError string string
  | ValueError string
  | TypeError string
  | UnrecognisedImageFormatError format_message
  | BadImageOperationError string
  | OtherError string

fun isinstance_LookupError :: "exn \<Rightarrow> bool" where
  "isinstance_LookupError (LookupError _) = True"
| "isinstance_LookupError (KeyError _) = True"
| "isinstance_LookupError (IndexError _) = True"
| "isinstance_LookupError _ = False"

section \<open>The classes of image.py\<close>

datatype cls =
    Image
  | ImageBuffer
  | RGBImageBuffer
  | RGBAImageBuffer
  | ImageFile
  | JPEGImageFile
  | PNGImageFile
  | GIFImageFile
  | BMPImageFile
  | TIFFImageFile
  | WebPImageFile

text \<open>The method resolution order that the \<^verbatim>\<open>class X(Y)\<close> statements give (single
  inheritance, below \<^verbatim>\<open>object\<close>).\<close>

fun mro :: "cls \<Rightarrow> cls list" where
  "mro Image = [Image]"
| "mro ImageBuffer = [ImageBuffer, Image]"
| "mro RGBImageBuffer = [RGBImageBuffer, ImageBuffer, Image]"
| "mro RGBAImageBuffer = [RGBAImageBuffer, ImageBuffer, Image]"
| "mro ImageFile = [ImageFile, Image]"
| "mro JPEGImageFile = [JPEGImageFile, ImageFile, Image]"
| "mro PNGImageFile = [PNGImageFile, ImageFile, Image]"
| "mro GIFImageFile = [GIFImageFile, ImageFile, Image]"
| "mro BMPImageFile = [BMPImageFile, ImageFile, Image]"
| "mro TIFFImageFile = [TIFFImageFile, ImageFile, Image]"
| "mro WebPImageFile = [WebPImageFile, ImageFile, Image]"

definition issubclass :: "cls \<Rightarrow> cls \<Rightarrow> bool" where
  "issubclass c b = (b \<in> set (mro c))"

text \<open>The first class of a resolution order whose body defines the name.\<close>

fun lookup_mro :: "(cls \<Rightarrow> string \<Rightarrow> 'a option) \<Rightarrow> cls list \<Rightarrow> string \<Rightarrow> 'a option" where
  "lookup_mro body [] name = None"
| "lookup_mro body (c # cs) name =
     (case body c name of Some a \<Rightarrow> Some a | None \<Rightarrow> lookup_mro body cs name)"

text \<open>The values the methods of this file return: \<^verbatim>\<open>None\<close>, a boolean, a string, or the
  \<^verbatim>\<open>size\<close> a buffer was built with (of any type \<open>'s\<close>).\<close>

datatype 's pyval =
    PyNone
  | PyBool bool
  | PyStr string
  | PySize 's

subsection \<open>ImageBuffer, RGBImageBuffer, RGBAImageBuffer\<close>

text \<open>An instance: its class and the two attributes \<^verbatim>\<open>__init__\<close> sets, \<^verbatim>\<open>self.size\<close>
  and \<^verbatim>\<open>self.data\<close>.\<close>

record ('s, 'd) image_buffer =
  buffer_class :: cls
  self_size :: 's
  self_data :: 'd

definition ImageBuffer_init :: "cls \<Rightarrow> 's \<Rightarrow> 'd \<Rightarrow> ('s, 'd) image_buffer" where
  "ImageBuffer_init c size0 data0 = \<lparr>buffer_class = c, self_size = size0, self_data = data0\<rparr>"

text \<open>
  An operation takes \<^verbatim>\<open>self\<close> and returns its result together with \<^verbatim>\<open>self\<close> as the call
  leaves it, so that a mutation of the instance would show in the second component.
\<close>

type_synonym ('s, 'd) operation_method =
  "('s, 'd) image_buffer \<Rightarrow> 's pyval \<times> ('s, 'd) image_buffer"

definition ImageBuffer_get_size :: "('s, 'd) operation_method" where
  "ImageBuffer_get_size self = (PySize (self_size self), self)"

definition RGBImageBuffer_has_alpha :: "('s, 'd) operation_method" where
  "RGBImageBuffer_has_alpha self = (PyBool False, self)"

definition RGBImageBuffer_has_animation :: "('s, 'd) operation_method" where
  "RGBImageBuffer_has_animation self = (PyBool False, self)"

definition RGBAImageBuffer_has_alpha :: "('s, 'd) operation_method" where
  "RGBAImageBuffer_has_alpha self = (PyBool True, self)"

definition RGBAImageBuffer_has_animation :: "('s, 'd) operation_method" where
  "RGBAImageBuffer_has_animation self = (PyBool False, self)"

text \<open>The functions that each class body marks with \<^verbatim>\<open>@Image.operation\<close>, by name.\<close>

fun class_operations :: "cls \<Rightarrow> string \<Rightarrow> ('s, 'd) operation_method option" where
  "class_operations ImageBuffer name =
     (if name = ''get_size'' then Some ImageBuffer_get_size else None)"
| "class_operations RGBImageBuffer name =
     (if name = ''has_alpha'' then Some RGBImageBuffer_has_alpha
      else if name = ''has_animation'' then Some RGBImageBuffer_has_animation
      else None)"
| "class_operations RGBAImageBuffer name =
     (if name = ''has_alpha'' then Some RGBAImageBuffer_has_alpha
      else if name = ''has_animation'' then Some RGBAImageBuffer_has_animation
      else None)"
| "class_operations _ name = None"

text \<open>The class attribute \<^verbatim>\<open>mode\<close>.\<close>

fun class_mode :: "cls \<Rightarrow> string option" where
  "class_mode RGBImageBuffer = Some ''RGB''"
| "class_mode RGBAImageBuffer = Some ''RGBA''"
| "class_mode _ = None"

text \<open>
  \<^verbatim>\<open>self.name()\<close> for an operation name: the function comes from the first class of the
  instance's resolution order that defines it, and is applied to the instance. \<open>None\<close>
  when no class body of this file defines the operation (the lookup then goes on to
  \<^verbatim>\<open>Image.__getattr__\<close>, below).
\<close>

definition call_operation ::
    "('s, 'd) image_buffer \<Rightarrow> string \<Rightarrow> ('s pyval \<times> ('s, 'd) image_buffer) option" where
  "call_operation self name =
     (case lookup_mro class_operations (mro (buffer_class self)) name of
        None \<Rightarrow> None
      | Some func \<Rightarrow> Some (func self))"

subsection \<open>ImageFile and the file classes\<close>

text \<open>An instance: its class and \<^verbatim>\<open>self.f\<close>.\<close>

record 'f image_file =
  file_class :: cls
  self_f :: 'f

definition ImageFile_init :: "cls \<Rightarrow> 'f \<Rightarrow> 'f image_file" where
  "ImageFile_init c f0 = \<lparr>file_class = c, self_f = f0\<rparr>"

text \<open>The class attribute \<^verbatim>\<open>format_name\<close> of each class body that sets it.\<close>

fun class_format_name :: "cls \<Rightarrow> string \<Rightarrow> 's pyval option" where
  "class_format_name ImageFile name = (if name = ''format_name'' then Some PyNone else None)"
| "class_format_name JPEGImageFile name =
     (if name = ''format_name'' then Some (PyStr ''jpeg'') else None)"
| "class_format_name PNGImageFile name =
     (if name = ''format_name'' then Some (PyStr ''png'') else None)"
| "class_format_name GIFImageFile name =
     (if name = ''format_name'' then Some (PyStr ''gif'') else None)"
| "class_format_name BMPImageFile name =
     (if name = ''format_name'' then Some (PyStr ''bmp'') else None)"
| "class_format_name TIFFImageFile name =
     (if name = ''format_name'' then Some (PyStr ''tiff'') else None)"
| "class_format_name WebPImageFile name =
     (if name = ''format_name'' then Some (PyStr ''webp'') else None)"
| "class_format_name _ name = None"

text \<open>\<^verbatim>\<open>self.format_name\<close>: the instance sets no such attribute, so the class attribute
  found along the resolution order is read.\<close>

definition format_name :: "'f image_file \<Rightarrow> 's pyval option" where
  "format_name self = lookup_mro class_format_name (mro (file_class self)) ''format_name''"

text \<open>
  The property \<^verbatim>\<open>original_format\<close>. \<^verbatim>\<open>warnings.warn\<close> is modelled as an entry added to
  the list of warnings issued so far (message and category).
\<close>

datatype warning_category = RemovedInWillow05Warning

type_synonym warnings = "(string \<times> warning_category) list"

definition warn :: "string \<Rightarrow> warning_category \<Rightarrow> warnings \<Rightarrow> warnings" where
  "warn message category issued = issued @ [(message, category)]"

definition ImageFile_original_format ::
    "'f image_file \<Rightarrow> warnings \<Rightarrow> 's pyval option \<times> warnings" where
  "ImageFile_original_format self issued =
     (let issued' = warn ''Image.original_format has been renamed to Image.format_name.''
                      RemovedInWillow05Warning issued
      in (format_name self, issued'))"

section \<open>Image.open\<close>

text \<open>
  The image types of the \<^verbatim>\<open>filetype\<close> library that the table names. The library is not
  part of the repository, so the detector \<^verbatim>\<open>filetype.guess_extension\<close> and the constants
  \<^verbatim>\<open>image_types.X().extension\<close> are parameters of the model: \<open>guess_extension\<close> maps
  a byte source to a format tag or to \<open>None\<close>, \<open>extension\<close> gives the tag of each type.
\<close>

datatype image_type = Jpeg | Png | Gif | Bmp | Tiff | Webp

text \<open>The dictionary literal: a key written twice keeps the later value, as the updates
  of the map do.\<close>

definition INITIAL_IMAGE_CLASSES :: "(image_type \<Rightarrow> string) \<Rightarrow> string \<Rightarrow> cls option" where
  "INITIAL_IMAGE_CLASSES extension =
     Map.empty(extension Jpeg \<mapsto> JPEGImageFile,
               extension Png \<mapsto> PNGImageFile,
               extension Gif \<mapsto> GIFImageFile,
               extension Bmp \<mapsto> BMPImageFile,
               extension Tiff \<mapsto> TIFFImageFile,
               extension Webp \<mapsto> WebPImageFile)"

text \<open>
  \<^verbatim>\<open>INITIAL_IMAGE_CLASSES.get(image_format)\<close> is \<^verbatim>\<open>None\<close> for the key \<^verbatim>\<open>None\<close> (every key
  is a string). \<^verbatim>\<open>if image_format:\<close> is false for \<^verbatim>\<open>None\<close> and for the empty string.
\<close>

definition Image_open ::
    "('f \<Rightarrow> string option) \<Rightarrow> (image_type \<Rightarrow> string) \<Rightarrow> 'f \<Rightarrow> exn + 'f image_file" where
  "Image_open guess_extension extension f0 =
     (let image_format = guess_extension f0;
          initial_class =
            (case image_format of
               None \<Rightarrow> None
             | Some tag \<Rightarrow> INITIAL_IMAGE_CLASSES extension tag)
      in case initial_class of
           None \<Rightarrow>
             (case image_format of
                None \<Rightarrow> Inl (UnrecognisedImageFormatError Unknown_image_format)
              | Some tag \<Rightarrow>
                  if tag \<noteq> [] then Inl (UnrecognisedImageFormatError (Cannot_load tag))
                  else Inl (UnrecognisedImageFormatError Unknown_image_format))
         | Some c \<Rightarrow> Inr (ImageFile_init c f0))"

subsection \<open>The signature detector\<close>

text \<open>
  Modelled from the spec: the byte-signature detector (\<^verbatim>\<open>filetype.guess_extension\<close>, a
  third-party library that is not among the source files). The spec has it inspect a
  fixed-size leading byte window against a table of known magic signatures, the longest
  match winning, and names three signatures: the PNG one, the JFIF one and \<^verbatim>\<open>GIF89a\<close>.
  Bytes are \<open>char\<close>s, a byte source is the list of its bytes, \<open>window\<close> is the size of
  the window.
\<close>

definition png_signature :: string where
  "png_signature = [CHR 0x89] @ ''PNG'' @ [CHR 0x0D, CHR 0x0A, CHR 0x1A, CHR 0x0A]"

definition jfif_signature :: string where
  "jfif_signature =
     [CHR 0xFF, CHR 0xD8, CHR 0xFF, CHR 0xE0, CHR 0x00, CHR 0x10] @ ''JFIF'' @ [CHR 0x00]"

definition gif_signature :: string where
  "gif_signature = ''GIF89a''"

definition signature_table :: "(string \<times> image_type) list" where
  "signature_table =
     [(png_signature, Png), (jfif_signature, Jpeg), (gif_signature, Gif)]"

definition matches :: "string \<Rightarrow> string \<Rightarrow> bool" where
  "matches buf sig = (take (length sig) buf = sig)"

fun longest_match ::
    "string \<Rightarrow> (string \<times> image_type) list \<Rightarrow> (string \<times> image_type) option
      \<Rightarrow> (string \<times> image_type) option" where
  "longest_match buf [] best = best"
| "longest_match buf ((sig, t) # rest) best =
     (if matches buf sig \<and>
         (case best of None \<Rightarrow> True | Some (sig', _) \<Rightarrow> length sig' < length sig)
      then longest_match buf rest (Some (sig, t))
      else longest_match buf rest best)"

definition sniff :: "nat \<Rightarrow> string \<Rightarrow> image_type option" where
  "sniff window source =
     map_option snd (longest_match (take window source) signature_table None)"

definition sniff_extension :: "nat \<Rightarrow> (image_type \<Rightarrow> string) \<Rightarrow> string \<Rightarrow> string option" where
  "sniff_extension window extension source = map_option extension (sniff window source)"

section \<open>Dispatch: Image.\_\_getattr\_\_ and Image.save\<close>

text \<open>
  A call of a Python callable runs in a world \<open>'w\<close> (everything a call can change) and
  either raises or returns: \<open>'w \<Rightarrow> (exn + 'a) \<times> 'w\<close>. A converter takes an image and
  returns an image; an operation takes an image, the positional and the keyword arguments.
  Images are of any type \<open>'img\<close> (the classes above and those of the plugins), argument
  and result values of any type \<open>'v\<close>, conversion costs of any type \<open>'k\<close>.
\<close>

type_synonym ('a, 'w) call = "'w \<Rightarrow> (exn + 'a) \<times> 'w"

type_synonym ('img, 'w) converter = "'img \<Rightarrow> ('img, 'w) call"

type_synonym ('v, 'w) callable = "'v list \<Rightarrow> (string \<times> 'v) list \<Rightarrow> ('v, 'w) call"

type_synonym ('img, 'v, 'w) operation = "'img \<Rightarrow> ('v, 'w) callable"

type_synonym ('img, 'k, 'w) conversion_path = "(('img, 'w) converter \<times> 'k) list"

text \<open>What \<^verbatim>\<open>registry.find_operation\<close> returns: the operation, the class that has it,
  the conversion path and its cost.\<close>

type_synonym ('img, 'c, 'k, 'v, 'w) found =
  "('img, 'v, 'w) operation \<times> 'c \<times> ('img, 'k, 'w) conversion_path \<times> 'k"

text \<open>An attribute of an instance: something that can be called, or any other value.\<close>

datatype ('v, 'w) attribute =
    Callable "('v, 'w) callable"
  | Value 'v

text \<open>
  What the dispatch takes from outside \<^verbatim>\<open>image.py\<close>: \<^verbatim>\<open>type(self)\<close>, the \<^verbatim>\<open>__name__\<close> of a
  class, the registry's \<^verbatim>\<open>find_operation\<close> (module \<^verbatim>\<open>willow.registry\<close>, not among the
  source files), and the ordinary attribute lookup of Python, which finds the attributes
  of the instance and of its classes and gives \<open>None\<close> where it would raise
  \<^verbatim>\<open>AttributeError\<close>, the one case in which Python calls \<^verbatim>\<open>__getattr__\<close>.
\<close>

record ('img, 'c, 'k, 'v, 'w) runtime =
  type_of :: "'img \<Rightarrow> 'c"
  class_name :: "'c \<Rightarrow> string"
  find_operation :: "'c \<Rightarrow> string \<Rightarrow> exn + ('img, 'c, 'k, 'v, 'w) found"
  object_getattribute :: "'img \<Rightarrow> string \<Rightarrow> ('v, 'w) attribute option"

text \<open>The loop of \<^verbatim>\<open>wrapper\<close>: \<^verbatim>\<open>for converter, _ in conversion_path: image = converter(image)\<close>
  (the variable \<^verbatim>\<open>image\<close> is \<open>img\<close> here). A converter that raises ends the loop with
  its exception.\<close>

fun run_conversion_path ::
    "('img, 'k, 'w) conversion_path \<Rightarrow> 'img \<Rightarrow> ('img, 'w) call" where
  "run_conversion_path [] img w = (Inr img, w)"
| "run_conversion_path ((converter, _) # rest) img w =
     (case converter img w of
        (Inl e, w') \<Rightarrow> (Inl e, w')
      | (Inr img', w') \<Rightarrow> run_conversion_path rest img' w')"

definition wrapper ::
    "('img, 'v, 'w) operation \<Rightarrow> ('img, 'k, 'w) conversion_path \<Rightarrow> 'img
      \<Rightarrow> ('v, 'w) callable" where
  "wrapper operation conversion_path self args kwargs w =
     (case run_conversion_path conversion_path self w of
        (Inl e, w') \<Rightarrow> (Inl e, w')
      | (Inr img, w') \<Rightarrow> operation img args kwargs w')"

text \<open>\<^verbatim>\<open>Image.__getattr__\<close>: it returns the wrapper and calls nothing but the registry.\<close>

definition Image_getattr ::
    "('img, 'c, 'k, 'v, 'w) runtime \<Rightarrow> 'img \<Rightarrow> string \<Rightarrow> exn + ('v, 'w) callable" where
  "Image_getattr rt self attr =
     (case find_operation rt (type_of rt self) attr of
        Inl e \<Rightarrow>
          if isinstance_LookupError e
          then Inl (AttributeError (class_name rt (type_of rt self)) attr)
          else Inl e
      | Inr (operation, _, conversion_path, _) \<Rightarrow>
          Inr (wrapper operation conversion_path self))"

text \<open>The builtin \<^verbatim>\<open>getattr(self, name)\<close>, that is \<^verbatim>\<open>self.name\<close>: the ordinary lookup, and
  \<^verbatim>\<open>__getattr__\<close> when that finds nothing.\<close>

definition getattr ::
    "('img, 'c, 'k, 'v, 'w) runtime \<Rightarrow> 'img \<Rightarrow> string \<Rightarrow> exn + ('v, 'w) attribute" where
  "getattr rt self name =
     (case object_getattribute rt self name of
        Some a \<Rightarrow> Inr a
      | None \<Rightarrow>
          (case Image_getattr rt self name of
             Inl e \<Rightarrow> Inl e
           | Inr g \<Rightarrow> Inr (Callable g)))"

fun call_attribute :: "('v, 'w) attribute \<Rightarrow> ('v, 'w) callable" where
  "call_attribute (Callable g) args kwargs w = g args kwargs w"
| "call_attribute (Value v) args kwargs w = (Inl (TypeError ''object is not callable''), w)"

text \<open>A capability request of a caller, \<^verbatim>\<open>self.name(*args, **kwargs)\<close>.\<close>

definition invoke ::
    "('img, 'c, 'k, 'v, 'w) runtime \<Rightarrow> 'img \<Rightarrow> string \<Rightarrow> ('v, 'w) callable" where
  "invoke rt self name args kwargs w =
     (case getattr rt self name of
        Inl e \<Rightarrow> (Inl e, w)
      | Inr a \<Rightarrow> call_attribute a args kwargs w)"

definition Image_save ::
    "('img, 'c, 'k, 'v, 'w) runtime \<Rightarrow> 'img \<Rightarrow> string \<Rightarrow> 'v \<Rightarrow> ('v, 'w) call" where
  "Image_save rt self image_format output w =
     (if image_format \<notin> set [''jpeg'', ''png'', ''gif'', ''bmp'', ''tiff'', ''webp'']
      then (Inl (ValueError (''Unknown image format: '' @ image_format)), w)
      else
        let operation_name = ''save_as_'' @ image_format
        in (case getattr rt self operation_name of
              Inl e \<Rightarrow> (Inl e, w)
            | Inr a \<Rightarrow> call_attribute a [output] [] w))"

section \<open>The capability registry\<close>

text \<open>
  Modelled from the spec: the registry and its path resolver (module \<^verbatim>\<open>willow.registry\<close>,
  whose \<^verbatim>\<open>find_operation\<close> the dispatch above calls, is not among the source files). The
  spec's data model: an operation registration maps a node type and an operation name to
  an implementation; a converter registration is a directed edge with a source and a
  destination node type, a cost and a function, and several edges may join the same pair
  of types. Node types are of any type \<open>'n\<close>, operation implementations of any type \<open>'f\<close>,
  converter functions of any type \<open>'g\<close>. Both registrations are kept in registration order.
\<close>

datatype registry_error =
    DuplicateOperationError
  | InvalidCostError
  | OperationNotFoundError

record ('n, 'g) converter_edge =
  edge_source :: 'n
  edge_dest :: 'n
  edge_cost :: int
  edge_impl :: 'g

record ('n, 'f, 'g) registry =
  reg_operations :: "(('n \<times> string) \<times> 'f) list"
  reg_converters :: "('n, 'g) converter_edge list"

text \<open>Modelled from the spec: the registry before any registration.\<close>

definition empty_registry :: "('n, 'f, 'g) registry" where
  "empty_registry = \<lparr>reg_operations = [], reg_converters = []\<rparr>"

text \<open>Modelled from the spec: \<open>has_direct_operation\<close> is true iff the node type itself
  implements the operation.\<close>

definition has_direct_operation :: "('n, 'f, 'g) registry \<Rightarrow> 'n \<Rightarrow> string \<Rightarrow> bool" where
  "has_direct_operation reg node_type name =
     (map_of (reg_operations reg) (node_type, name) \<noteq> None)"

text \<open>Modelled from the spec: \<open>register_operation\<close> fails with
  \<open>DuplicateOperationError\<close> if the name is already registered for the node type.\<close>

definition register_operation ::
    "('n, 'f, 'g) registry \<Rightarrow> 'n \<Rightarrow> string \<Rightarrow> 'f \<Rightarrow> registry_error + ('n, 'f, 'g) registry" where
  "register_operation reg node_type name impl =
     (if has_direct_operation reg node_type name then Inl DuplicateOperationError
      else Inr (reg\<lparr>reg_operations := reg_operations reg @ [((node_type, name), impl)]\<rparr>))"

text \<open>Modelled from the spec: \<open>register_converter\<close>. The cost defaults to 1 when it is
  not given and must not be negative (\<open>InvalidCostError\<close> otherwise); the edge is appended,
  and replaces none.\<close>

definition register_converter ::
    "('n, 'f, 'g) registry \<Rightarrow> 'n \<Rightarrow> 'n \<Rightarrow> int option \<Rightarrow> 'g
      \<Rightarrow> registry_error + ('n, 'f, 'g) registry" where
  "register_converter reg source_type dest_type cost impl =
     (let c = (case cost of None \<Rightarrow> 1 | Some k \<Rightarrow> k)
      in if c < 0 then Inl InvalidCostError
         else Inr (reg\<lparr>reg_converters := reg_converters reg @
                [\<lparr>edge_source = source_type, edge_dest = dest_type, edge_cost = c,
                  edge_impl = impl\<rparr>]\<rparr>))"

subsection \<open>The path resolver\<close>

text \<open>
  Modelled from the spec: Dijkstra's algorithm from the query node type, with early
  termination. A frontier entry is a node type with the path that reached it and the cost
  of that path. The entry of least cost is popped, the one discovered first among equals;
  a node type that was popped before is skipped; the search stops at the first popped
  node type that implements the operation, and otherwise pushes an entry for every edge
  that leaves the node type, in registration order.
\<close>

type_synonym ('n, 'g) frontier_entry = "int \<times> 'n \<times> ('n, 'g) converter_edge list"

fun pop_min ::
    "('n, 'g) frontier_entry list
      \<Rightarrow> (('n, 'g) frontier_entry \<times> ('n, 'g) frontier_entry list) option" where
  "pop_min [] = None"
| "pop_min (x # xs) =
     (case pop_min xs of
        None \<Rightarrow> Some (x, [])
      | Some (y, ys) \<Rightarrow> if fst x \<le> fst y then Some (x, xs) else Some (y, x # ys))"

definition outgoing :: "('n, 'f, 'g) registry \<Rightarrow> 'n \<Rightarrow> ('n, 'g) converter_edge list" where
  "outgoing reg n = filter (\<lambda>e. edge_source e = n) (reg_converters reg)"

function dijkstra ::
    "('n, 'f, 'g) registry \<Rightarrow> string \<Rightarrow> ('n, 'g) frontier_entry list \<Rightarrow> 'n list
      \<Rightarrow> (('n, 'g) converter_edge list \<times> int \<times> 'f) option" where
  "dijkstra reg name frontier visited =
     (case pop_min frontier of
        None \<Rightarrow> None
      | Some ((d, n, p), rest) \<Rightarrow>
          if n \<in> set visited then dijkstra reg name rest visited
          else (case map_of (reg_operations reg) (n, name) of
                  Some impl \<Rightarrow> Some (p, d, impl)
                | None \<Rightarrow>
                    dijkstra reg name
                      (rest @ map (\<lambda>e. (d + edge_cost e, edge_dest e, p @ [e])) (outgoing reg n))
                      (n # visited)))"
  by pat_completeness auto
termination
proof -
  have empty: "xs = []" if "pop_min xs = None"
    for xs :: "('n, 'g) frontier_entry list"
    using that by (cases xs) (auto split: option.splits if_splits)
  have shorter: "length xs = Suc (length rest)" if "pop_min xs = Some (x, rest)"
    for xs rest :: "('n, 'g) frontier_entry list" and x
    using that
    by (induction xs arbitrary: x rest) (auto dest: empty split: option.splits if_splits)
  have fewer: "length (filter Q xs) < length (filter P xs)"
    if "x \<in> set xs" "P x" "\<not> Q x" "\<And>y. Q y \<Longrightarrow> P y"
    for P Q :: "('n, 'g) converter_edge \<Rightarrow> bool" and x xs
    using that
  proof (induction xs)
    case Nil
    then show ?case by simp
  next
    case (Cons a xs)
    have le: "length (filter Q xs) \<le> length (filter P xs)"
      using Cons.prems(4) by (induction xs) auto
    show ?case
    proof (cases "a = x")
      case True
      with Cons.prems le show ?thesis by simp
    next
      case False
      with Cons have "length (filter Q xs) < length (filter P xs)" by simp
      with Cons.prems(4) show ?thesis by auto
    qed
  qed
  have expand: "((reg, name, rest @ map g (outgoing reg n), n # visited),
          (reg, name, frontier, visited))
         \<in> measures
            [\<lambda>(reg, name, frontier, visited).
                length (filter (\<lambda>e. edge_source e \<notin> set visited) (reg_converters reg)),
             \<lambda>(reg, name, frontier, visited). length frontier]"
    if pop: "pop_min frontier = Some ((d, n, p), rest)" and n: "n \<notin> set visited"
    for reg :: "('n, 'f, 'g) registry" and name :: string and frontier rest d n p visited g
  proof (cases "outgoing reg n = []")
    case True
    then have "\<forall>e\<in>set (reg_converters reg). edge_source e \<noteq> n"
      by (auto simp: outgoing_def filter_empty_conv)
    then have "filter (\<lambda>e. edge_source e \<notin> set (n # visited)) (reg_converters reg) =
        filter (\<lambda>e. edge_source e \<notin> set visited) (reg_converters reg)"
      by (auto intro: filter_cong)
    with True shorter [OF pop] show ?thesis by simp
  next
    case False
    then obtain e where e: "e \<in> set (reg_converters reg)" "edge_source e = n"
      by (auto simp: outgoing_def filter_empty_conv)
    have "length (filter (\<lambda>e. edge_source e \<notin> set (n # visited)) (reg_converters reg)) <
        length (filter (\<lambda>e. edge_source e \<notin> set visited) (reg_converters reg))"
      using e n by (intro fewer [of e]) auto
    then show ?thesis by simp
  qed
  show ?thesis
  proof (relation "measures
      [\<lambda>(reg, name, frontier, visited).
          length (filter (\<lambda>e. edge_source e \<notin> set visited) (reg_converters reg)),
       \<lambda>(reg, name, frontier, visited). length frontier]", goal_cases)
    case 1
    then show ?case by simp
  next
    case 2
    then show ?case by (auto simp: shorter)
  next
    case 3
    then show ?case by clarify (erule (1) expand)
  qed
qed

text \<open>
  Modelled from the spec: \<open>find\<close>. A node type that implements the operation resolves to
  the empty path at cost 0, checked before the search; a node type without the operation
  and without an outgoing edge fails at once; no implementing type reachable is
  \<open>OperationNotFoundError\<close>. A resolution is the path, its cost and the implementation.
\<close>

type_synonym ('n, 'f, 'g) resolution =
  "registry_error + (('n, 'g) converter_edge list \<times> int \<times> 'f)"

definition resolve ::
    "('n, 'f, 'g) registry \<Rightarrow> 'n \<Rightarrow> string \<Rightarrow> ('n, 'f, 'g) resolution" where
  "resolve reg node_type name =
     (case map_of (reg_operations reg) (node_type, name) of
        Some impl \<Rightarrow> Inr ([], 0, impl)
      | None \<Rightarrow>
          if outgoing reg node_type = [] then Inl OperationNotFoundError
          else (case dijkstra reg name [(0, node_type, [])] [] of
                  None \<Rightarrow> Inl OperationNotFoundError
                | Some r \<Rightarrow> Inr r))"

text \<open>
  Modelled from the spec: the resolved-path cache, a memoized mapping from the query to
  its resolution, the failed ones included. \<open>registry_find\<close> answers from the cache and
  records what it resolves.
\<close>

type_synonym ('n, 'f, 'g) cache = "'n \<times> string \<Rightarrow> ('n, 'f, 'g) resolution option"

definition registry_find ::
    "('n, 'f, 'g) registry \<Rightarrow> ('n, 'f, 'g) cache \<Rightarrow> 'n \<Rightarrow> string
      \<Rightarrow> ('n, 'f, 'g) resolution \<times> ('n, 'f, 'g) cache" where
  "registry_find reg cache node_type name =
     (case cache (node_type, name) of
        Some r \<Rightarrow> (r, cache)
      | None \<Rightarrow>
          (let r = resolve reg node_type name
           in (r, cache((node_type, name) \<mapsto> r))))"

subsection \<open>Paths, costs and invariants\<close>

text \<open>
  What the statements about the resolver speak of: \<open>is_path reg a p b\<close> says that \<open>p\<close> is a
  sequence of registered converters that leads from node type \<open>a\<close> to node type \<open>b\<close>,
  \<open>path_cost\<close> is the total cost. A registry is well-formed when no registered cost is
  negative, which \<open>register_converter\<close> guarantees. A cache is consistent with a registry
  when each entry is what the resolver computes on that registry; the empty cache is, and
  \<open>registry_find\<close> keeps it so (registrations after the first resolution are outside the
  spec's contract).
\<close>

fun is_path ::
    "('n, 'f, 'g) registry \<Rightarrow> 'n \<Rightarrow> ('n, 'g) converter_edge list \<Rightarrow> 'n \<Rightarrow> bool" where
  "is_path reg a [] b = (a = b)"
| "is_path reg a (e # p) b =
     (e \<in> set (reg_converters reg) \<and> edge_source e = a \<and> is_path reg (edge_dest e) p b)"

definition path_cost :: "('n, 'g) converter_edge list \<Rightarrow> int" where
  "path_cost p = sum_list (map edge_cost p)"

definition wf_registry :: "('n, 'f, 'g) registry \<Rightarrow> bool" where
  "wf_registry reg = (\<forall>e\<in>set (reg_converters reg). 0 \<le> edge_cost e)"

definition cache_consistent :: "('n, 'f, 'g) registry \<Rightarrow> ('n, 'f, 'g) cache \<Rightarrow> bool" where
  "cache_consistent reg cache =
     (\<forall>node_type name r. cache (node_type, name) = Some r \<longrightarrow> r = resolve reg node_type name)"

text \<open>
  The invariant of the search from \<open>s\<close>: every frontier entry carries a path from \<open>s\<close> to
  its node type and that path's cost; \<open>s\<close> is visited or on the frontier at cost 0; for
  every edge from a visited node type to an unvisited one, the frontier has an entry for
  the destination that costs no more than any path to the source followed by the edge;
  and no visited node type implements the operation.
\<close>

definition dijkstra_inv ::
    "('n, 'f, 'g) registry \<Rightarrow> string \<Rightarrow> 'n \<Rightarrow> ('n, 'g) frontier_entry list \<Rightarrow> 'n list \<Rightarrow> bool" where
  "dijkstra_inv reg name s frontier visited =
     ((\<forall>(d, n, p)\<in>set frontier. is_path reg s p n \<and> path_cost p = d) \<and>
      (s \<in> set visited \<or> (\<exists>p. (0, s, p) \<in> set frontier)) \<and>
      (\<forall>u\<in>set visited. \<forall>e\<in>set (reg_converters reg).
         edge_source e = u \<longrightarrow> edge_dest e \<notin> set visited \<longrightarrow>
         (\<forall>q. is_path reg s q u \<longrightarrow>
            (\<exists>d p. (d, edge_dest e, p) \<in> set frontier \<and> d \<le> path_cost q + edge_cost e))) \<and>
      (\<forall>u\<in>set visited. map_of (reg_operations reg) (u, name) = None))"

section \<open>Example inputs\<close>

text \<open>
  Inputs for the concrete instances below. The extensions are those of the \<^verbatim>\<open>filetype\<close>
  library. In the example runtime an image is a class name with a payload, the world is
  the log of the calls made so far, and the registry knows one operation, reached from a
  \<^verbatim>\<open>JPEGImageFile\<close> over two converters. In the example registry node types,
  implementations and converter functions are named by strings.
\<close>

abbreviation example_extension :: "image_type \<Rightarrow> string" where
  "example_extension \<equiv>
     (\<lambda>t. case t of Jpeg \<Rightarrow> ''jpg'' | Png \<Rightarrow> ''png'' | Gif \<Rightarrow> ''gif''
               | Bmp \<Rightarrow> ''bmp'' | Tiff \<Rightarrow> ''tif'' | Webp \<Rightarrow> ''webp'')"

abbreviation to_pillow :: "(string \<times> nat, string list) converter" where
  "to_pillow \<equiv> (\<lambda>img w. (Inr (''PillowImage'', snd img), w @ [''pillow_open'']))"

abbreviation to_buffer :: "(string \<times> nat, string list) converter" where
  "to_buffer \<equiv> (\<lambda>img w. (Inr (''RGBImageBuffer'', Suc (snd img)), w @ [''to_buffer_rgb'']))"

abbreviation logged :: "string \<Rightarrow> (string \<times> nat, string, string list) operation" where
  "logged name \<equiv> (\<lambda>img args kwargs w. (Inr (fst img), w @ name # args))"

abbreviation example_runtime ::
    "(string \<times> nat, string, nat, string, string list) runtime" where
  "example_runtime \<equiv>
     \<lparr>type_of = fst, class_name = (\<lambda>c. c),
      find_operation = (\<lambda>c name.
        if c = ''JPEGImageFile'' \<and> name = ''save_as_jpeg''
        then Inr (logged ''save_as_jpeg'', ''RGBImageBuffer'',
                  [(to_pillow, 100), (to_buffer, 100)], 200)
        else Inl (LookupError name)),
      object_getattribute = (\<lambda>img name. None)\<rparr>"

abbreviation mock_runtime ::
    "(string \<times> nat, string, nat, string, string list) runtime" where
  "mock_runtime \<equiv>
     example_runtime\<lparr>object_getattribute := (\<lambda>img name.
        if name = ''save_as_jpeg''
        then Some (Callable (\<lambda>args kwargs w. (Inr ''mock'', w @ ''called with'' # args)))
        else None)\<rparr>"

abbreviation example_edge :: "string \<Rightarrow> string \<Rightarrow> int \<Rightarrow> string \<Rightarrow> (string, string) converter_edge" where
  "example_edge a b c g \<equiv> \<lparr>edge_source = a, edge_dest = b, edge_cost = c, edge_impl = g\<rparr>"

abbreviation example_registry :: "(string, string, string) registry" where
  "example_registry \<equiv>
     \<lparr>reg_operations = [((''RGBImageBuffer'', ''get_pixels''), ''rgb_get_pixels''),
                        ((''WandImage'', ''get_pixels''), ''wand_get_pixels'')],
      reg_converters =
        [example_edge ''JPEGImageFile'' ''WandImage'' 300 ''wand_open'',
         example_edge ''JPEGImageFile'' ''PillowImage'' 100 ''pillow_open'',
         example_edge ''PillowImage'' ''PillowImage'' 0 ''noop'',
         example_edge ''PillowImage'' ''RGBImageBuffer'' 100 ''to_buffer_rgb'',
         example_edge ''WandImage'' ''RGBImageBuffer'' 100 ''wand_to_buffer_rgb'']\<rparr>"

section \<open>The registry's resolver\<close>

lemma pop_min_None: "pop_min xs = None \<longleftrightarrow> xs = []"
  by (cases xs) (auto split: option.splits)

lemma pop_min_length: "pop_min xs = Some (x, rest) \<Longrightarrow> length xs = Suc (length rest)"
  by (induction xs arbitrary: x rest) (auto simp: pop_min_None split: option.splits if_splits)

lemma is_path_append:
  "is_path reg a (p @ q) c \<longleftrightarrow> (\<exists>b. is_path reg a p b \<and> is_path reg b q c)"
  by (induction p arbitrary: a) auto

lemma is_path_snoc:
  "is_path reg a (p @ [e]) c \<longleftrightarrow>
     is_path reg a p (edge_source e) \<and> e \<in> set (reg_converters reg) \<and> edge_dest e = c"
  by (auto simp: is_path_append)

lemma path_cost_simps:
  "path_cost [] = 0" "path_cost (e # p) = edge_cost e + path_cost p"
  "path_cost (p @ q) = path_cost p + path_cost q"
  by (simp_all add: path_cost_def)

lemma path_cost_nonneg:
  "wf_registry reg \<Longrightarrow> is_path reg a p b \<Longrightarrow> 0 \<le> path_cost p"
  by (induction p arbitrary: a) (auto simp: path_cost_simps wf_registry_def)

lemma pop_min_set: "pop_min xs = Some (x, rest) \<Longrightarrow> set xs = insert x (set rest)"
  by (induction xs arbitrary: x rest)
     (auto simp: pop_min_None split: option.splits if_splits)

lemma pop_min_le: "pop_min xs = Some (x, rest) \<Longrightarrow> y \<in> set xs \<Longrightarrow> fst x \<le> fst y"
proof (induction xs arbitrary: x rest y)
  case Nil
  then show ?case by simp
next
  case (Cons a xs)
  show ?case
  proof (cases "pop_min xs")
    case None
    then have "xs = []" by (simp add: pop_min_None)
    with Cons.prems show ?thesis by auto
  next
    case (Some m)
    obtain z zs where m: "m = (z, zs)" by (cases m)
    have zmin: "\<And>y. y \<in> set xs \<Longrightarrow> fst z \<le> fst y"
      using Cons.IH Some m by blast
    show ?thesis
    proof (cases "fst a \<le> fst z")
      case True
      with Cons.prems Some m have "x = a" by simp
      with True zmin Cons.prems(2) show ?thesis by fastforce
    next
      case False
      with Cons.prems Some m have "x = z" by simp
      with False zmin Cons.prems(2) show ?thesis by fastforce
    qed
  qed
qed

lemma dijkstra_inv_bound:
  assumes wf: "wf_registry reg" and inv: "dijkstra_inv reg name s frontier visited"
  shows "is_path reg s q x \<Longrightarrow> x \<notin> set visited \<Longrightarrow>
         \<exists>d n p. (d, n, p) \<in> set frontier \<and> n \<notin> set visited \<and> d \<le> path_cost q"
proof (induction q arbitrary: x rule: rev_induct)
  case Nil
  then have "x = s" by simp
  with Nil inv obtain p where "(0, s, p) \<in> set frontier"
    by (auto simp: dijkstra_inv_def)
  with Nil \<open>x = s\<close> show ?case by (auto simp: path_cost_simps)
next
  case (snoc e q)
  then have q: "is_path reg s q (edge_source e)" and e: "e \<in> set (reg_converters reg)"
    and x: "edge_dest e = x"
    by (simp_all add: is_path_snoc)
  have e0: "0 \<le> edge_cost e" using wf e by (simp add: wf_registry_def)
  show ?case
  proof (cases "edge_source e \<in> set visited")
    case True
    with inv e q x snoc.prems(2) obtain d p where
      "(d, edge_dest e, p) \<in> set frontier" "d \<le> path_cost q + edge_cost e"
      unfolding dijkstra_inv_def by blast
    with x snoc.prems(2) show ?thesis by (auto simp: path_cost_simps)
  next
    case False
    from snoc.IH [OF q False] obtain d n p where
      "(d, n, p) \<in> set frontier" "n \<notin> set visited" "d \<le> path_cost q"
      by blast
    with e0 show ?thesis by (fastforce simp: path_cost_simps)
  qed
qed

lemma dijkstra_inv_skip:
  assumes inv: "dijkstra_inv reg name s frontier visited"
    and pop: "pop_min frontier = Some ((d, n, p), rest)"
    and n: "n \<in> set visited"
  shows "dijkstra_inv reg name s rest visited"
proof -
  have F: "set frontier = insert (d, n, p) (set rest)" by (rule pop_min_set [OF pop])
  have keep: "\<And>d' n' p'. (d', n', p') \<in> set frontier \<Longrightarrow> n' \<notin> set visited \<Longrightarrow>
      (d', n', p') \<in> set rest"
    using F n by auto
  have A: "\<forall>(d, n, p)\<in>set rest. is_path reg s p n \<and> path_cost p = d"
    using inv F by (auto simp: dijkstra_inv_def)
  have D: "s \<in> set visited \<or> (\<exists>p. (0, s, p) \<in> set rest)"
    using inv keep unfolding dijkstra_inv_def by blast
  have C: "\<forall>u\<in>set visited. \<forall>e\<in>set (reg_converters reg).
         edge_source e = u \<longrightarrow> edge_dest e \<notin> set visited \<longrightarrow>
         (\<forall>q. is_path reg s q u \<longrightarrow>
            (\<exists>d p. (d, edge_dest e, p) \<in> set rest \<and> d \<le> path_cost q + edge_cost e))"
  proof (intro ballI impI allI)
    fix u e q
    assume "u \<in> set visited" "e \<in> set (reg_converters reg)" "edge_source e = u"
      "edge_dest e \<notin> set visited" "is_path reg s q u"
    with inv obtain d' p' where "(d', edge_dest e, p') \<in> set frontier"
      "d' \<le> path_cost q + edge_cost e"
      unfolding dijkstra_inv_def by blast
    with keep \<open>edge_dest e \<notin> set visited\<close>
    show "\<exists>d p. (d, edge_dest e, p) \<in> set rest \<and> d \<le> path_cost q + edge_cost e"
      by blast
  qed
  have E: "\<forall>u\<in>set visited. map_of (reg_operations reg) (u, name) = None"
    using inv by (simp add: dijkstra_inv_def)
  show ?thesis unfolding dijkstra_inv_def using A D C E by blast
qed

lemma dijkstra_popped_bound:
  assumes wf: "wf_registry reg" and inv: "dijkstra_inv reg name s frontier visited"
    and pop: "pop_min frontier = Some ((d, n, p), rest)"
    and q: "is_path reg s q x" and x: "x \<notin> set visited"
  shows "d \<le> path_cost q"
proof -
  from dijkstra_inv_bound [OF wf inv q x] obtain d' n' p' where
    "(d', n', p') \<in> set frontier" "d' \<le> path_cost q"
    by blast
  with pop_min_le [OF pop, of "(d', n', p')"] show ?thesis by simp
qed

lemma dijkstra_inv_expand:
  assumes wf: "wf_registry reg" and inv: "dijkstra_inv reg name s frontier visited"
    and pop: "pop_min frontier = Some ((d, n, p), rest)"
    and n: "n \<notin> set visited"
    and no_op: "map_of (reg_operations reg) (n, name) = None"
  shows "dijkstra_inv reg name s
           (rest @ map (\<lambda>e. (d + edge_cost e, edge_dest e, p @ [e])) (outgoing reg n))
           (n # visited)"
proof -
  let ?new = "map (\<lambda>e. (d + edge_cost e, edge_dest e, p @ [e])) (outgoing reg n)"
  have F: "set frontier = insert (d, n, p) (set rest)" by (rule pop_min_set [OF pop])
  have popped: "is_path reg s p n" "path_cost p = d"
    using inv F by (auto simp: dijkstra_inv_def)
  have keep: "\<And>d' n' p'. (d', n', p') \<in> set frontier \<Longrightarrow> n' \<noteq> n \<Longrightarrow>
      (d', n', p') \<in> set rest"
    using F by auto
  have A: "\<forall>(d, n, p)\<in>set (rest @ ?new). is_path reg s p n \<and> path_cost p = d"
    using inv F popped
    by (auto simp: dijkstra_inv_def outgoing_def is_path_snoc path_cost_simps)
  have D: "s \<in> set (n # visited) \<or> (\<exists>p. (0, s, p) \<in> set (rest @ ?new))"
  proof (cases "s = n \<or> s \<in> set visited")
    case True
    then show ?thesis by auto
  next
    case False
    with inv obtain p' where "(0, s, p') \<in> set frontier"
      by (auto simp: dijkstra_inv_def)
    with keep False have "(0, s, p') \<in> set rest" by blast
    then show ?thesis by auto
  qed
  have C: "\<forall>u\<in>set (n # visited). \<forall>e\<in>set (reg_converters reg).
         edge_source e = u \<longrightarrow> edge_dest e \<notin> set (n # visited) \<longrightarrow>
         (\<forall>q. is_path reg s q u \<longrightarrow>
            (\<exists>d p. (d, edge_dest e, p) \<in> set (rest @ ?new) \<and>
               d \<le> path_cost q + edge_cost e))"
  proof (intro ballI impI allI)
    fix u e q
    assume u: "u \<in> set (n # visited)" and e: "e \<in> set (reg_converters reg)"
      and src: "edge_source e = u" and dst: "edge_dest e \<notin> set (n # visited)"
      and q: "is_path reg s q u"
    show "\<exists>d p. (d, edge_dest e, p) \<in> set (rest @ ?new) \<and> d \<le> path_cost q + edge_cost e"
    proof (cases "u = n")
      case True
      have "d \<le> path_cost q"
        using dijkstra_popped_bound [OF wf inv pop] q n True by blast
      moreover have "(d + edge_cost e, edge_dest e, p @ [e]) \<in> set ?new"
        using e src True by (auto simp: outgoing_def)
      ultimately show ?thesis by fastforce
    next
      case False
      with u have uv: "u \<in> set visited" by simp
      from dst have "edge_dest e \<notin> set visited" "edge_dest e \<noteq> n" by auto
      with inv uv e src q obtain d' p' where
        "(d', edge_dest e, p') \<in> set frontier" "d' \<le> path_cost q + edge_cost e"
        unfolding dijkstra_inv_def by blast
      with keep \<open>edge_dest e \<noteq> n\<close> have "(d', edge_dest e, p') \<in> set rest" by blast
      with \<open>d' \<le> path_cost q + edge_cost e\<close> show ?thesis by auto
    qed
  qed
  have E: "\<forall>u\<in>set (n # visited). map_of (reg_operations reg) (u, name) = None"
    using inv no_op by (simp add: dijkstra_inv_def)
  show ?thesis unfolding dijkstra_inv_def using A D C E by blast
qed

lemma dijkstra_correct:
  "wf_registry reg \<Longrightarrow> dijkstra_inv reg name s frontier visited \<Longrightarrow>
         (case dijkstra reg name frontier visited of
            None \<Rightarrow> \<forall>q t. is_path reg s q t \<longrightarrow> map_of (reg_operations reg) (t, name) = None
          | Some (p, c, impl) \<Rightarrow>
              c = path_cost p \<and>
              (\<exists>t. is_path reg s p t \<and> map_of (reg_operations reg) (t, name) = Some impl) \<and>
              (\<forall>q t. is_path reg s q t \<and> map_of (reg_operations reg) (t, name) \<noteq> None \<longrightarrow>
                 c \<le> path_cost q))"
proof (induction reg name frontier visited rule: dijkstra.induct)
  case (1 reg name frontier visited)
  note wf = "1.prems"(1) and inv = "1.prems"(2)
  have closed: "\<And>t. map_of (reg_operations reg) (t, name) \<noteq> None \<Longrightarrow> t \<notin> set visited"
    using inv by (auto simp: dijkstra_inv_def)
  show ?case
  proof (cases "pop_min frontier")
    case None
    then have empty: "frontier = []" by (simp add: pop_min_None)
    have "\<forall>q t. is_path reg s q t \<longrightarrow> map_of (reg_operations reg) (t, name) = None"
    proof (intro allI impI, rule ccontr)
      fix q t
      assume q: "is_path reg s q t" and t: "map_of (reg_operations reg) (t, name) \<noteq> None"
      from dijkstra_inv_bound [OF wf inv q closed [OF t]] empty show False by simp
    qed
    with None show ?thesis by (subst dijkstra.simps) simp
  next
    case (Some m)
    obtain d n p rest where m: "m = ((d, n, p), rest)" by (cases m) auto
    have pop: "pop_min frontier = Some ((d, n, p), rest)" using Some m by simp
    show ?thesis
    proof (cases "n \<in> set visited")
      case True
      have "dijkstra_inv reg name s rest visited"
        by (rule dijkstra_inv_skip [OF inv pop True])
      then have IH: "case dijkstra reg name rest visited of
            None \<Rightarrow> \<forall>q t. is_path reg s q t \<longrightarrow> map_of (reg_operations reg) (t, name) = None
          | Some (p, c, impl) \<Rightarrow>
              c = path_cost p \<and>
              (\<exists>t. is_path reg s p t \<and> map_of (reg_operations reg) (t, name) = Some impl) \<and>
              (\<forall>q t. is_path reg s q t \<and> map_of (reg_operations reg) (t, name) \<noteq> None \<longrightarrow>
                 c \<le> path_cost q)"
        using "1.IH"(1) [OF pop refl refl refl True wf] by simp
      have "dijkstra reg name frontier visited = dijkstra reg name rest visited"
        using pop True by (subst dijkstra.simps) simp
      with IH show ?thesis by simp
    next
      case False
      show ?thesis
      proof (cases "map_of (reg_operations reg) (n, name)")
        case (Some impl)
        have F: "set frontier = insert (d, n, p) (set rest)" by (rule pop_min_set [OF pop])
        have popped: "is_path reg s p n" "path_cost p = d"
          using inv F by (auto simp: dijkstra_inv_def)
        have least: "\<forall>q t. is_path reg s q t \<and> map_of (reg_operations reg) (t, name) \<noteq> None \<longrightarrow>
            d \<le> path_cost q"
          using dijkstra_popped_bound [OF wf inv pop] closed by blast
        have "dijkstra reg name frontier visited = Some (p, d, impl)"
          using pop False Some by (subst dijkstra.simps) simp
        with popped least Some show ?thesis by auto
      next
        case None
        let ?next = "rest @ map (\<lambda>e. (d + edge_cost e, edge_dest e, p @ [e])) (outgoing reg n)"
        have "dijkstra_inv reg name s ?next (n # visited)"
          by (rule dijkstra_inv_expand [OF wf inv pop False None])
        then have IH: "case dijkstra reg name ?next (n # visited) of
            None \<Rightarrow> \<forall>q t. is_path reg s q t \<longrightarrow> map_of (reg_operations reg) (t, name) = None
          | Some (p, c, impl) \<Rightarrow>
              c = path_cost p \<and>
              (\<exists>t. is_path reg s p t \<and> map_of (reg_operations reg) (t, name) = Some impl) \<and>
              (\<forall>q t. is_path reg s q t \<and> map_of (reg_operations reg) (t, name) \<noteq> None \<longrightarrow>
                 c \<le> path_cost q)"
          using "1.IH"(2) [OF pop refl refl refl False None wf] by simp
        have "dijkstra reg name frontier visited = dijkstra reg name ?next (n # visited)"
          using pop False None by (subst dijkstra.simps) simp
        with IH show ?thesis by simp
      qed
    qed
  qed
qed

lemma dijkstra_inv_init: "dijkstra_inv reg name s [(0, s, [])] []"
  by (simp add: dijkstra_inv_def path_cost_simps)

lemma no_outgoing_no_path:
  "outgoing reg s = [] \<Longrightarrow> is_path reg s q t \<Longrightarrow> q = [] \<and> t = s"
  by (cases q) (auto simp: outgoing_def filter_empty_conv)

lemma resolve_correct:
  assumes wf: "wf_registry reg"
  shows "case resolve reg s name of
           Inl err \<Rightarrow>
             err = OperationNotFoundError \<and>
             (\<forall>q t. is_path reg s q t \<longrightarrow> map_of (reg_operations reg) (t, name) = None)
         | Inr (p, c, impl) \<Rightarrow>
             c = path_cost p \<and>
             (\<exists>t. is_path reg s p t \<and> map_of (reg_operations reg) (t, name) = Some impl) \<and>
             (\<forall>q t. is_path reg s q t \<and> map_of (reg_operations reg) (t, name) \<noteq> None \<longrightarrow>
                c \<le> path_cost q)"
proof (cases "map_of (reg_operations reg) (s, name)")
  case (Some impl)
  then have "resolve reg s name = Inr ([], 0, impl)" by (simp add: resolve_def)
  moreover have "\<forall>q t. is_path reg s q t \<longrightarrow> 0 \<le> path_cost q"
    using path_cost_nonneg [OF wf] by blast
  ultimately show ?thesis using Some by (auto simp: path_cost_simps)
next
  case None
  show ?thesis
  proof (cases "outgoing reg s = []")
    case True
    with None have "resolve reg s name = Inl OperationNotFoundError"
      by (simp add: resolve_def)
    moreover have "\<forall>q t. is_path reg s q t \<longrightarrow> map_of (reg_operations reg) (t, name) = None"
      using no_outgoing_no_path [OF True] None by blast
    ultimately show ?thesis by simp
  next
    case False
    note run = dijkstra_correct [OF wf dijkstra_inv_init [of reg name s]]
    show ?thesis
    proof (cases "dijkstra reg name [(0, s, [])] []")
      case None
      with \<open>map_of (reg_operations reg) (s, name) = None\<close> False
      have "resolve reg s name = Inl OperationNotFoundError" by (simp add: resolve_def)
      with run None show ?thesis by simp
    next
      case (Some r)
      with \<open>map_of (reg_operations reg) (s, name) = None\<close> False
      have "resolve reg s name = Inr r" by (simp add: resolve_def)
      with run Some show ?thesis by simp
    qed
  qed
qed

lemma registry_find_cached:
  "cache_consistent reg cache \<Longrightarrow>
   registry_find reg cache s name = (r, cache') \<Longrightarrow>
   r = resolve reg s name \<and> cache_consistent reg cache' \<and>
   registry_find reg cache' s name = (r, cache')"
  by (cases "cache (s, name)")
     (auto simp: registry_find_def cache_consistent_def Let_def split: if_splits)

lemma wf_empty_registry: "wf_registry empty_registry"
  by (simp add: wf_registry_def empty_registry_def)

lemma wf_register_converter:
  "wf_registry reg \<Longrightarrow> register_converter reg a b cost impl = Inr reg' \<Longrightarrow> wf_registry reg'"
  by (auto simp: wf_registry_def register_converter_def Let_def split: if_splits)

lemma wf_register_operation:
  "wf_registry reg \<Longrightarrow> register_operation reg a name impl = Inr reg' \<Longrightarrow> wf_registry reg'"
  by (auto simp: wf_registry_def register_operation_def split: if_splits)

lemma cache_consistent_empty: "cache_consistent reg Map.empty"
  by (simp add: cache_consistent_def)

text \<open>
  Claim C1. For a node type from which some registered converters lead to a type that
  implements the operation, \<open>find\<close> returns a conversion path from the node type to a type
  implementing the operation, with its cost and that type's implementation; no sequence
  of registered converters reaches an implementing type at a lower total cost; and the
  same query repeated returns the same path and cost. The registry is well-formed and the
  cache is one that earlier queries on this registry built.
\<close>

theorem find_returns_cheapest_path:
  assumes wf: "wf_registry reg" and cache: "cache_consistent reg cache"
    and reach: "is_path reg node_type q t" and impl: "has_direct_operation reg t name"
  shows "\<exists>p c impl cache'.
           registry_find reg cache node_type name = (Inr (p, c, impl), cache') \<and>
           c = path_cost p \<and>
           (\<exists>t'. is_path reg node_type p t' \<and>
                 map_of (reg_operations reg) (t', name) = Some impl) \<and>
           (\<forall>q' t'. is_path reg node_type q' t' \<and> has_direct_operation reg t' name \<longrightarrow>
              c \<le> path_cost q') \<and>
           registry_find reg cache' node_type name = (Inr (p, c, impl), cache') \<and>
           cache_consistent reg cache'"
proof -
  obtain r cache' where f: "registry_find reg cache node_type name = (r, cache')"
    by (cases "registry_find reg cache node_type name")
  note c = registry_find_cached [OF cache f]
  note rc = resolve_correct [OF wf, of node_type name]
  from reach impl have "\<not> (\<forall>q t. is_path reg node_type q t \<longrightarrow>
      map_of (reg_operations reg) (t, name) = None)"
    by (auto simp: has_direct_operation_def)
  with rc c obtain p k i where r: "resolve reg node_type name = Inr (p, k, i)"
    by (cases "resolve reg node_type name") auto
  from rc have best: "k = path_cost p"
    "\<exists>t'. is_path reg node_type p t' \<and> map_of (reg_operations reg) (t', name) = Some i"
    "\<forall>q' t'. is_path reg node_type q' t' \<and> has_direct_operation reg t' name \<longrightarrow>
        k \<le> path_cost q'"
    unfolding r has_direct_operation_def by auto
  from c r have "registry_find reg cache node_type name = (Inr (p, k, i), cache')"
    "registry_find reg cache' node_type name = (Inr (p, k, i), cache')"
    "cache_consistent reg cache'"
    using f by simp_all
  with best show ?thesis by blast
qed

theorem find_returns_cheapest_path_witness:
  "wf_registry example_registry \<and> cache_consistent example_registry Map.empty \<and>
   is_path example_registry ''JPEGImageFile''
     [example_edge ''JPEGImageFile'' ''WandImage'' 300 ''wand_open''] ''WandImage'' \<and>
   has_direct_operation example_registry ''WandImage'' ''get_pixels'' \<and>
   (\<exists>p c impl cache'.
      registry_find example_registry Map.empty ''JPEGImageFile'' ''get_pixels'' =
        (Inr (p, c, impl), cache') \<and>
      c = path_cost p \<and> c \<le> 300 \<and>
      registry_find example_registry cache' ''JPEGImageFile'' ''get_pixels'' =
        (Inr (p, c, impl), cache'))"
proof -
  let ?q = "[example_edge ''JPEGImageFile'' ''WandImage'' 300 ''wand_open'']"
  have wf: "wf_registry example_registry" by (simp add: wf_registry_def)
  have cache: "cache_consistent example_registry Map.empty"
    by (simp add: cache_consistent_def)
  have reach: "is_path example_registry ''JPEGImageFile'' ?q ''WandImage''" by simp
  have impl: "has_direct_operation example_registry ''WandImage'' ''get_pixels''"
    by (simp add: has_direct_operation_def)
  from find_returns_cheapest_path [OF wf cache reach impl]
  obtain p c i cache' where
    f: "registry_find example_registry Map.empty ''JPEGImageFile'' ''get_pixels'' =
          (Inr (p, c, i), cache')"
    and c: "c = path_cost p"
    and least: "\<forall>q' t'. is_path example_registry ''JPEGImageFile'' q' t' \<and>
        has_direct_operation example_registry t' ''get_pixels'' \<longrightarrow> c \<le> path_cost q'"
    and again: "registry_find example_registry cache' ''JPEGImageFile'' ''get_pixels'' =
          (Inr (p, c, i), cache')"
    by blast
  from least reach impl have "c \<le> path_cost ?q" by blast
  then have "c \<le> 300" by (simp add: path_cost_def)
  with wf cache reach impl f c again show ?thesis by blast
qed

text \<open>On the example registry the resolver picks the two-step path over a no-cost
  self-loop and a direct but dearer edge.\<close>

lemma example_resolve:
  "resolve example_registry ''JPEGImageFile'' ''get_pixels'' =
     Inr ([example_edge ''JPEGImageFile'' ''PillowImage'' 100 ''pillow_open'',
           example_edge ''PillowImage'' ''RGBImageBuffer'' 100 ''to_buffer_rgb''], 200, ''rgb_get_pixels'')"
  by code_simp

section \<open>Dispatch through the registry\<close>

lemma run_conversion_path_chain:
  "length hs = Suc (length path) \<Longrightarrow> length ws = Suc (length path) \<Longrightarrow>
   hs ! 0 = img \<Longrightarrow> ws ! 0 = w \<Longrightarrow>
   (\<forall>i<length path. fst (path ! i) (hs ! i) (ws ! i) = (Inr (hs ! Suc i), ws ! Suc i)) \<Longrightarrow>
   run_conversion_path path img w = (Inr (last hs), last ws)"
proof (induction path arbitrary: hs ws img w)
  case Nil
  then show ?case by (cases hs; cases ws) simp_all
next
  case (Cons edge path)
  obtain converter k where edge: "edge = (converter, k)" by (cases edge)
  from Cons.prems(1) obtain h hs' where hs: "hs = h # hs'" by (cases hs) auto
  from Cons.prems(2) obtain v ws' where ws: "ws = v # ws'" by (cases ws) auto
  from Cons.prems hs ws have hv: "h = img" "v = w" by simp_all
  from Cons.prems(5) have first: "fst ((edge # path) ! 0) (hs ! 0) (ws ! 0) = (Inr (hs ! Suc 0), ws ! Suc 0)"
    by blast
  then have step: "converter img w = (Inr (hs' ! 0), ws' ! 0)"
    using edge hs ws hv by simp
  have rest: "\<forall>i<length path. fst (path ! i) (hs' ! i) (ws' ! i) = (Inr (hs' ! Suc i), ws' ! Suc i)"
  proof (intro allI impI)
    fix i assume "i < length path"
    then have "Suc i < length (edge # path)" by simp
    with Cons.prems(5) have "fst ((edge # path) ! Suc i) (hs ! Suc i) (ws ! Suc i) = (Inr (hs ! Suc (Suc i)), ws ! Suc (Suc i))"
      by blast
    then show "fst (path ! i) (hs' ! i) (ws' ! i) = (Inr (hs' ! Suc i), ws' ! Suc i)"
      using hs ws by simp
  qed
  have len: "length hs' = Suc (length path)" "length ws' = Suc (length path)"
    using Cons.prems(1,2) hs ws by simp_all
  have "run_conversion_path path (hs' ! 0) (ws' ! 0) = (Inr (last hs'), last ws')"
    by (rule Cons.IH [OF len refl refl rest])
  moreover have "hs' \<noteq> []" "ws' \<noteq> []" using len by auto
  ultimately show ?case using edge step hs ws by simp
qed

lemma run_conversion_path_raises:
  "i < length path \<Longrightarrow> length hs = Suc i \<Longrightarrow> length ws = Suc i \<Longrightarrow>
   hs ! 0 = img \<Longrightarrow> ws ! 0 = w \<Longrightarrow>
   (\<forall>j<i. fst (path ! j) (hs ! j) (ws ! j) = (Inr (hs ! Suc j), ws ! Suc j)) \<Longrightarrow>
   fst (path ! i) (hs ! i) (ws ! i) = (Inl e, w') \<Longrightarrow>
   run_conversion_path path img w = (Inl e, w')"
proof (induction path arbitrary: i hs ws img w)
  case Nil
  then show ?case by simp
next
  case (Cons edge path)
  obtain converter k where edge: "edge = (converter, k)" by (cases edge)
  from Cons.prems(2) obtain h hs' where hs: "hs = h # hs'" by (cases hs) auto
  from Cons.prems(3) obtain v ws' where ws: "ws = v # ws'" by (cases ws) auto
  from Cons.prems hs ws have hv: "h = img" "v = w" by simp_all
  show ?case
  proof (cases i)
    case 0
    with Cons.prems(7) edge hs ws hv show ?thesis by simp
  next
    case (Suc n)
    from Cons.prems(6) Suc have "fst ((edge # path) ! 0) (hs ! 0) (ws ! 0) = (Inr (hs ! Suc 0), ws ! Suc 0)"
      by blast
    then have step: "converter img w = (Inr (hs' ! 0), ws' ! 0)"
      using edge hs ws hv by simp
    have rest: "\<forall>j<n. fst (path ! j) (hs' ! j) (ws' ! j) = (Inr (hs' ! Suc j), ws' ! Suc j)"
    proof (intro allI impI)
      fix j assume "j < n"
      then have "Suc j < i" using Suc by simp
      with Cons.prems(6) have "fst ((edge # path) ! Suc j) (hs ! Suc j) (ws ! Suc j) = (Inr (hs ! Suc (Suc j)), ws ! Suc (Suc j))"
        by blast
      then show "fst (path ! j) (hs' ! j) (ws' ! j) = (Inr (hs' ! Suc j), ws' ! Suc j)"
        using hs ws by simp
    qed
    have "run_conversion_path path (hs' ! 0) (ws' ! 0) = (Inl e, w')"
    proof (rule Cons.IH [of n hs' ws'])
      show "n < length path" using Cons.prems(1) Suc by simp
      show "length hs' = Suc n" using Cons.prems(2) hs Suc by simp
      show "length ws' = Suc n" using Cons.prems(3) ws Suc by simp
      show "hs' ! 0 = hs' ! 0" ..
      show "ws' ! 0 = ws' ! 0" ..
      show "\<forall>j<n. fst (path ! j) (hs' ! j) (ws' ! j) = (Inr (hs' ! Suc j), ws' ! Suc j)" by (rule rest)
      show "fst (path ! n) (hs' ! n) (ws' ! n) = (Inl e, w')"
        using Cons.prems(7) Suc hs ws by simp
    qed
    then show ?thesis using edge step by simp
  qed
qed

text \<open>
  Claim C2. When the registry resolves the capability \<open>attr\<close> for the type of \<open>self\<close> to an
  operation and a conversion path, the callable that \<^verbatim>\<open>__getattr__\<close> returns runs the
  converters of the path in order: converter \<open>i\<close> is applied to the image \<open>hs ! i\<close> that
  the one before it returned (\<open>hs ! 0\<close> is \<open>self\<close>), in the world \<open>ws ! i\<close> that the one
  before it left. The operation is then applied to the last image with the caller's
  positional and keyword arguments, and its result is returned as it is. The converters
  are assumed to return; \<open>run_conversion_path_raises\<close> covers one that raises.
\<close>

theorem getattr_runs_path_then_operation:
  assumes found: "find_operation rt (type_of rt self) attr = Inr (operation, c, path, k)"
    and lens: "length hs = Suc (length path)" "length ws = Suc (length path)"
    and start: "hs ! 0 = self" "ws ! 0 = w"
    and steps: "\<forall>i<length path.
                  fst (path ! i) (hs ! i) (ws ! i) = (Inr (hs ! Suc i), ws ! Suc i)"
  shows "\<exists>g. Image_getattr rt self attr = Inr g \<and>
              g args kwargs w = operation (last hs) args kwargs (last ws) \<and>
              (object_getattribute rt self attr = None \<longrightarrow>
                 invoke rt self attr args kwargs w =
                   operation (last hs) args kwargs (last ws))"
proof -
  have "Image_getattr rt self attr = Inr (wrapper operation path self)"
    using found by (simp add: Image_getattr_def)
  moreover have "wrapper operation path self args kwargs w =
      operation (last hs) args kwargs (last ws)"
    using run_conversion_path_chain [OF lens start steps] by (simp add: wrapper_def)
  ultimately show ?thesis by (simp add: invoke_def getattr_def)
qed

theorem getattr_runs_path_then_operation_witness:
  "\<exists>g. Image_getattr example_runtime (''JPEGImageFile'', 7) ''save_as_jpeg'' = Inr g \<and>
        g [''out''] [] [] =
          (Inr ''RGBImageBuffer'', [''pillow_open'', ''to_buffer_rgb'', ''save_as_jpeg'', ''out'']) \<and>
        invoke example_runtime (''JPEGImageFile'', 7) ''save_as_jpeg'' [''out''] [] [] =
          (Inr ''RGBImageBuffer'', [''pillow_open'', ''to_buffer_rgb'', ''save_as_jpeg'', ''out''])"
proof -
  let ?path = "[(to_pillow, 100::nat), (to_buffer, 100)]"
  let ?hs = "[(''JPEGImageFile'', 7::nat), (''PillowImage'', 7), (''RGBImageBuffer'', 8)]"
  let ?ws = "[[], [''pillow_open''], [''pillow_open'', ''to_buffer_rgb'']]"
  have found: "find_operation example_runtime (type_of example_runtime (''JPEGImageFile'', 7))
      ''save_as_jpeg'' = Inr (logged ''save_as_jpeg'', ''RGBImageBuffer'', ?path, 200)"
    by simp
  have steps: "\<forall>i<length ?path. fst (?path ! i) (?hs ! i) (?ws ! i) = (Inr (?hs ! Suc i), ?ws ! Suc i)"
    by (simp add: less_Suc_eq)
  show ?thesis
    using getattr_runs_path_then_operation
      [of example_runtime "(''JPEGImageFile'', 7)" "''save_as_jpeg''" "logged ''save_as_jpeg''"
          "''RGBImageBuffer''" ?path 200 ?hs ?ws "[]" "[''out'']" "[]", OF found _ _ _ _ steps]
    by simp
qed

text \<open>
  Claim C3. When the registry's resolution fails with a lookup error, \<^verbatim>\<open>__getattr__\<close> raises
  \<^verbatim>\<open>AttributeError\<close> and returns nothing; the request \<^verbatim>\<open>self.attr(...)\<close> ends with that
  exception in the world it started in, so no converter and no operation has run.
\<close>

theorem getattr_unresolved_raises_AttributeError:
  assumes "object_getattribute rt self attr = None"
    and "find_operation rt (type_of rt self) attr = Inl e"
    and "isinstance_LookupError e"
  shows "Image_getattr rt self attr = Inl (AttributeError (class_name rt (type_of rt self)) attr) \<and>
         getattr rt self attr = Inl (AttributeError (class_name rt (type_of rt self)) attr) \<and>
         invoke rt self attr args kwargs w =
           (Inl (AttributeError (class_name rt (type_of rt self)) attr), w)"
  using assms by (simp add: Image_getattr_def getattr_def invoke_def)

theorem getattr_unresolved_raises_AttributeError_witness:
  "object_getattribute example_runtime (''JPEGImageFile'', 7) ''resize'' = None \<and>
   find_operation example_runtime (type_of example_runtime (''JPEGImageFile'', 7)) ''resize'' =
     Inl (LookupError ''resize'') \<and>
   isinstance_LookupError (LookupError ''resize'') \<and>
   invoke example_runtime (''JPEGImageFile'', 7) ''resize'' [''100''] [] [''before''] =
     (Inl (AttributeError ''JPEGImageFile'' ''resize''), [''before''])"
  using getattr_unresolved_raises_AttributeError
    [of example_runtime "(''JPEGImageFile'', 7)" "''resize''" "LookupError ''resize''"
        "[''100'']" "[]" "[''before'']"]
  by simp

text \<open>
  Claim C6. For a format name outside \<^verbatim>\<open>jpeg\<close>, \<^verbatim>\<open>png\<close>, \<^verbatim>\<open>gif\<close>, \<^verbatim>\<open>bmp\<close>, \<^verbatim>\<open>tiff\<close>, \<^verbatim>\<open>webp\<close>,
  \<^verbatim>\<open>save\<close> raises \<^verbatim>\<open>ValueError\<close> whatever the attributes of the image and the contents of
  the registry are, and leaves the world as it was: nothing is looked up or called.
\<close>

theorem save_rejects_unknown_format:
  "image_format \<notin> {''jpeg'', ''png'', ''gif'', ''bmp'', ''tiff'', ''webp''} \<Longrightarrow>
   Image_save rt self image_format output w =
     (Inl (ValueError (''Unknown image format: '' @ image_format)), w)"
  by (simp add: Image_save_def)

theorem save_rejects_unknown_format_witness:
  "''foo'' \<notin> {''jpeg'', ''png'', ''gif'', ''bmp'', ''tiff'', ''webp''} \<and>
   Image_save example_runtime (''JPEGImageFile'', 7) ''foo'' ''outfile'' [] =
     (Inl (ValueError ''Unknown image format: foo''), [])"
  using save_rejects_unknown_format [of "''foo''" example_runtime "(''JPEGImageFile'', 7)" "''outfile''" "[]"]
  by simp

text \<open>
  Claim C7. For a supported format name, \<^verbatim>\<open>save(image_format, output)\<close> is the capability
  request \<^verbatim>\<open>self.save_as_<image_format>(output)\<close>, resolved like any other request. Where
  the name is an ordinary attribute that can be called, that callable is called once with
  \<open>output\<close> as its only argument; where the registry resolves it and the converters
  return, the operation is called once on the converted image with \<open>output\<close> as its only
  argument. In both cases \<^verbatim>\<open>save\<close> returns the result of that call.
\<close>

theorem save_invokes_save_as:
  assumes "image_format \<in> {''jpeg'', ''png'', ''gif'', ''bmp'', ''tiff'', ''webp''}"
  shows "Image_save rt self image_format output w =
           invoke rt self (''save_as_'' @ image_format) [output] [] w \<and>
         (\<forall>g. object_getattribute rt self (''save_as_'' @ image_format) = Some (Callable g) \<longrightarrow>
            Image_save rt self image_format output w = g [output] [] w) \<and>
         (\<forall>operation c path k img w'.
            object_getattribute rt self (''save_as_'' @ image_format) = None \<and>
            find_operation rt (type_of rt self) (''save_as_'' @ image_format) =
              Inr (operation, c, path, k) \<and>
            run_conversion_path path self w = (Inr img, w') \<longrightarrow>
            Image_save rt self image_format output w = operation img [output] [] w')"
proof -
  have save: "Image_save rt self image_format output w =
      invoke rt self (''save_as_'' @ image_format) [output] [] w"
    using assms by (auto simp: Image_save_def invoke_def Let_def)
  show ?thesis
    unfolding save
    by (simp add: invoke_def getattr_def Image_getattr_def wrapper_def)
qed

theorem save_invokes_save_as_witness:
  "''jpeg'' \<in> {''jpeg'', ''png'', ''gif'', ''bmp'', ''tiff'', ''webp''} \<and>
   Image_save example_runtime (''JPEGImageFile'', 7) ''jpeg'' ''outfile'' [] =
     (Inr ''RGBImageBuffer'', [''pillow_open'', ''to_buffer_rgb'', ''save_as_jpeg'', ''outfile'']) \<and>
   Image_save mock_runtime (''Image'', 0) ''jpeg'' ''outfile'' [] =
     (Inr ''mock'', [''called with'', ''outfile''])"
proof -
  have m: "''jpeg'' \<in> {''jpeg'', ''png'', ''gif'', ''bmp'', ''tiff'', ''webp''}" by simp
  have "Image_save example_runtime (''JPEGImageFile'', 7) ''jpeg'' ''outfile'' [] =
      logged ''save_as_jpeg'' (''RGBImageBuffer'', 8) [''outfile''] []
        [''pillow_open'', ''to_buffer_rgb'']"
    using save_invokes_save_as
      [OF m, of example_runtime "(''JPEGImageFile'', 7)" "''outfile''" "[]",
       THEN conjunct2, THEN conjunct2]
    by simp
  moreover have "Image_save mock_runtime (''Image'', 0) ''jpeg'' ''outfile'' [] =
      (Inr ''mock'', [''called with'', ''outfile''])"
    using save_invokes_save_as
      [OF m, of mock_runtime "(''Image'', 0)" "''outfile''" "[]",
       THEN conjunct2, THEN conjunct1]
    by simp
  ultimately show ?thesis by simp
qed

section \<open>Opening a byte source\<close>

text \<open>
  Claim C4. \<^verbatim>\<open>Image.open\<close> raises in exactly two cases: the detector gives no format tag,
  or it gives a tag that is not a key of \<^verbatim>\<open>INITIAL_IMAGE_CLASSES\<close>. What it raises is
  \<^verbatim>\<open>UnrecognisedImageFormatError\<close>. In every other case it returns an instance of the class
  the table gives for the tag, built from the byte source: the class of the instance is
  the mapped class and its attribute \<^verbatim>\<open>f\<close> is the byte source that was passed in.
\<close>

theorem open_raises_in_two_cases:
  "((\<exists>e. Image_open guess_extension extension src = Inl e) \<longleftrightarrow>
      guess_extension src = None \<or>
      (\<exists>tag. guess_extension src = Some tag \<and> INITIAL_IMAGE_CLASSES extension tag = None)) \<and>
   (\<forall>e. Image_open guess_extension extension src = Inl e \<longrightarrow>
      (\<exists>m. e = UnrecognisedImageFormatError m)) \<and>
   (\<forall>tag c. guess_extension src = Some tag \<and> INITIAL_IMAGE_CLASSES extension tag = Some c \<longrightarrow>
      (\<exists>h. Image_open guess_extension extension src = Inr h \<and>
           file_class h = c \<and> self_f h = src \<and>
           h = \<lparr>file_class = c, self_f = src\<rparr>))"
proof (cases "guess_extension src")
  case None
  then show ?thesis by (simp add: Image_open_def)
next
  case (Some tag)
  then show ?thesis
    by (cases "INITIAL_IMAGE_CLASSES extension tag")
       (simp_all add: Image_open_def ImageFile_init_def)
qed

theorem open_raises_in_two_cases_witness:
  "(\<exists>e. Image_open (\<lambda>s. if s = ''%PDF-1.4'' then Some ''pdf'' else if s = ''BM6'' then Some ''bmp'' else None)
     (\<lambda>t. case t of Jpeg \<Rightarrow> ''jpg'' | Png \<Rightarrow> ''png'' | Gif \<Rightarrow> ''gif'' | Bmp \<Rightarrow> ''bmp''
               | Tiff \<Rightarrow> ''tif'' | Webp \<Rightarrow> ''webp'') ''%PDF-1.4'' = Inl e) \<and>
   (\<exists>e. Image_open (\<lambda>s. if s = ''%PDF-1.4'' then Some ''pdf'' else if s = ''BM6'' then Some ''bmp'' else None)
     (\<lambda>t. case t of Jpeg \<Rightarrow> ''jpg'' | Png \<Rightarrow> ''png'' | Gif \<Rightarrow> ''gif'' | Bmp \<Rightarrow> ''bmp''
               | Tiff \<Rightarrow> ''tif'' | Webp \<Rightarrow> ''webp'') ''junk'' = Inl e) \<and>
   Image_open (\<lambda>s. if s = ''%PDF-1.4'' then Some ''pdf'' else if s = ''BM6'' then Some ''bmp'' else None)
     (\<lambda>t. case t of Jpeg \<Rightarrow> ''jpg'' | Png \<Rightarrow> ''png'' | Gif \<Rightarrow> ''gif'' | Bmp \<Rightarrow> ''bmp''
               | Tiff \<Rightarrow> ''tif'' | Webp \<Rightarrow> ''webp'') ''BM6'' =
     Inr \<lparr>file_class = BMPImageFile, self_f = ''BM6''\<rparr> \<and>
   (\<exists>h. Image_open (\<lambda>s. if s = ''%PDF-1.4'' then Some ''pdf'' else if s = ''BM6'' then Some ''bmp'' else None)
     (\<lambda>t. case t of Jpeg \<Rightarrow> ''jpg'' | Png \<Rightarrow> ''png'' | Gif \<Rightarrow> ''gif'' | Bmp \<Rightarrow> ''bmp''
               | Tiff \<Rightarrow> ''tif'' | Webp \<Rightarrow> ''webp'') ''BM6'' = Inr h \<and>
      file_class h = BMPImageFile \<and> self_f h = ''BM6'')"
  using open_raises_in_two_cases
    [of "\<lambda>s. if s = ''%PDF-1.4'' then Some ''pdf'' else if s = ''BM6'' then Some ''bmp'' else None"
        "\<lambda>t. case t of Jpeg \<Rightarrow> ''jpg'' | Png \<Rightarrow> ''png'' | Gif \<Rightarrow> ''gif'' | Bmp \<Rightarrow> ''bmp''
               | Tiff \<Rightarrow> ''tif'' | Webp \<Rightarrow> ''webp''"
        "''%PDF-1.4''"]
    open_raises_in_two_cases
    [of "\<lambda>s. if s = ''%PDF-1.4'' then Some ''pdf'' else if s = ''BM6'' then Some ''bmp'' else None"
        "\<lambda>t. case t of Jpeg \<Rightarrow> ''jpg'' | Png \<Rightarrow> ''png'' | Gif \<Rightarrow> ''gif'' | Bmp \<Rightarrow> ''bmp''
               | Tiff \<Rightarrow> ''tif'' | Webp \<Rightarrow> ''webp''"
        "''junk''"]
    open_raises_in_two_cases
    [of "\<lambda>s. if s = ''%PDF-1.4'' then Some ''pdf'' else if s = ''BM6'' then Some ''bmp'' else None"
        "\<lambda>t. case t of Jpeg \<Rightarrow> ''jpg'' | Png \<Rightarrow> ''png'' | Gif \<Rightarrow> ''gif'' | Bmp \<Rightarrow> ''bmp''
               | Tiff \<Rightarrow> ''tif'' | Webp \<Rightarrow> ''webp''"
        "''BM6''"]
  by (simp add: INITIAL_IMAGE_CLASSES_def)

lemma matches_window:
  "length sig \<le> window \<Longrightarrow> matches (take window source) sig = matches source sig"
  by (simp add: matches_def min_def)

lemma sniff_window:
  "11 \<le> window \<Longrightarrow>
   sniff window source = map_option snd (longest_match source signature_table None)"
  by (simp add: sniff_def signature_table_def matches_window png_signature_def
      jfif_signature_def gif_signature_def)

lemma sniff_png: "11 \<le> window \<Longrightarrow> sniff window (png_signature @ rest) = Some Png"
  by (simp add: sniff_window)
     (simp add: signature_table_def matches_def png_signature_def jfif_signature_def
        gif_signature_def)

lemma sniff_jfif: "11 \<le> window \<Longrightarrow> sniff window (jfif_signature @ rest) = Some Jpeg"
  by (simp add: sniff_window)
     (simp add: signature_table_def matches_def png_signature_def jfif_signature_def
        gif_signature_def)

lemma sniff_gif: "11 \<le> window \<Longrightarrow> sniff window (gif_signature @ rest) = Some Gif"
  by (simp add: sniff_window)
     (simp add: signature_table_def matches_def png_signature_def jfif_signature_def
        gif_signature_def)

lemma sniff_junk: "11 \<le> window \<Longrightarrow> sniff window ''Not an image'' = None"
  by (simp add: sniff_window)
     (simp add: signature_table_def matches_def png_signature_def jfif_signature_def
        gif_signature_def)

lemma table_distinct:
  assumes "distinct (map extension [Jpeg, Png, Gif, Bmp, Tiff, Webp])"
  shows "INITIAL_IMAGE_CLASSES extension (extension Jpeg) = Some JPEGImageFile"
    and "INITIAL_IMAGE_CLASSES extension (extension Png) = Some PNGImageFile"
    and "INITIAL_IMAGE_CLASSES extension (extension Gif) = Some GIFImageFile"
  using assms by (auto simp: INITIAL_IMAGE_CLASSES_def)

text \<open>
  Claim C5. With the detector of the spec (a window that holds the signatures) and
  extensions that differ from each other, opening a byte source that begins with the PNG
  signature gives an image whose \<^verbatim>\<open>format_name\<close> is \<^verbatim>\<open>png\<close>, one that begins with the JFIF
  signature gives \<^verbatim>\<open>jpeg\<close>, one that begins with \<^verbatim>\<open>GIF89a\<close> gives \<^verbatim>\<open>gif\<close>; the bytes of
  \<^verbatim>\<open>Not an image\<close>, and every source in which the detector finds no signature, make
  \<^verbatim>\<open>Image.open\<close> raise \<^verbatim>\<open>UnrecognisedImageFormatError\<close>.
\<close>

theorem open_recognises_signatures:
  assumes "distinct (map extension [Jpeg, Png, Gif, Bmp, Tiff, Webp])" and "11 \<le> window"
  shows "(\<exists>h. Image_open (sniff_extension window extension) extension (png_signature @ rest)
            = Inr h \<and> format_name h = Some (PyStr ''png'' :: 's pyval)) \<and>
         (\<exists>h. Image_open (sniff_extension window extension) extension (jfif_signature @ rest)
            = Inr h \<and> format_name h = Some (PyStr ''jpeg'' :: 's pyval)) \<and>
         (\<exists>h. Image_open (sniff_extension window extension) extension (gif_signature @ rest)
            = Inr h \<and> format_name h = Some (PyStr ''gif'' :: 's pyval)) \<and>
         Image_open (sniff_extension window extension) extension ''Not an image''
            = Inl (UnrecognisedImageFormatError Unknown_image_format) \<and>
         (\<forall>source. sniff window source = None \<longrightarrow>
            Image_open (sniff_extension window extension) extension source
              = Inl (UnrecognisedImageFormatError Unknown_image_format))"
  using assms(2) table_distinct [OF assms(1)]
  by (simp add: Image_open_def sniff_extension_def sniff_png sniff_jfif sniff_gif sniff_junk
      format_name_def ImageFile_init_def)

theorem open_recognises_signatures_witness:
  "distinct (map example_extension [Jpeg, Png, Gif, Bmp, Tiff, Webp]) \<and> (11::nat) \<le> 16 \<and>
   (\<exists>h. Image_open (sniff_extension 16 example_extension) example_extension
           (png_signature @ ''IHDR'') = Inr h \<and>
         format_name h = Some (PyStr ''png'' :: unit pyval)) \<and>
   (\<exists>h. Image_open (sniff_extension 16 example_extension) example_extension
           (jfif_signature @ ''IHDR'') = Inr h \<and>
         format_name h = Some (PyStr ''jpeg'' :: unit pyval)) \<and>
   (\<exists>h. Image_open (sniff_extension 16 example_extension) example_extension
           (gif_signature @ ''IHDR'') = Inr h \<and>
         format_name h = Some (PyStr ''gif'' :: unit pyval)) \<and>
   Image_open (sniff_extension 16 example_extension) example_extension ''Not an image'' =
     Inl (UnrecognisedImageFormatError Unknown_image_format)"
proof -
  have d: "distinct (map example_extension [Jpeg, Png, Gif, Bmp, Tiff, Webp])" by simp
  have n: "(11::nat) \<le> 16" by simp
  show ?thesis
    using d n open_recognises_signatures [OF d n, of "''IHDR''", where ?'s = unit] by blast
qed

section \<open>Operations of the buffer classes\<close>

lemma lookup_get_size:
  "issubclass c ImageBuffer \<Longrightarrow>
   lookup_mro class_operations (mro c) ''get_size'' = Some ImageBuffer_get_size"
  by (cases c) (simp_all add: issubclass_def)

text \<open>
  Claim C8. Operations do not mutate the buffer they are applied to: on a buffer built
  with \<open>(s, d)\<close>, of \<^verbatim>\<open>ImageBuffer\<close> or a subclass, \<^verbatim>\<open>get_size()\<close> returns exactly \<open>s\<close> and
  leaves the instance as it was built (its class, its size and its data); on an
  \<^verbatim>\<open>RGBImageBuffer\<close> and an \<^verbatim>\<open>RGBAImageBuffer\<close>, \<^verbatim>\<open>has_alpha()\<close> and \<^verbatim>\<open>has_animation()\<close> return
  and leave the instance unchanged too.
\<close>

theorem get_size_has_alpha_has_animation_leave_buffer:
  "(issubclass c ImageBuffer \<longrightarrow>
      call_operation (ImageBuffer_init c s d) ''get_size'' =
        Some (PySize s, ImageBuffer_init c s d)) \<and>
   (c = RGBImageBuffer \<or> c = RGBAImageBuffer \<longrightarrow>
      (\<exists>r. call_operation (ImageBuffer_init c s d) ''has_alpha'' =
         Some (r, ImageBuffer_init c s d)) \<and>
      (\<exists>r. call_operation (ImageBuffer_init c s d) ''has_animation'' =
         Some (r, ImageBuffer_init c s d)))"
proof (intro conjI impI)
  assume "issubclass c ImageBuffer"
  then show "call_operation (ImageBuffer_init c s d) ''get_size'' =
        Some (PySize s, ImageBuffer_init c s d)"
    by (simp add: call_operation_def lookup_get_size ImageBuffer_init_def ImageBuffer_get_size_def)
next
  assume "c = RGBImageBuffer \<or> c = RGBAImageBuffer"
  then show "\<exists>r. call_operation (ImageBuffer_init c s d) ''has_alpha'' =
         Some (r, ImageBuffer_init c s d)"
    by (auto simp: call_operation_def ImageBuffer_init_def RGBImageBuffer_has_alpha_def
        RGBAImageBuffer_has_alpha_def)
next
  assume "c = RGBImageBuffer \<or> c = RGBAImageBuffer"
  then show "\<exists>r. call_operation (ImageBuffer_init c s d) ''has_animation'' =
         Some (r, ImageBuffer_init c s d)"
    by (auto simp: call_operation_def ImageBuffer_init_def RGBImageBuffer_has_animation_def
        RGBAImageBuffer_has_animation_def)
qed

theorem get_size_has_alpha_has_animation_leave_buffer_witness:
  "issubclass RGBAImageBuffer ImageBuffer \<and>
   call_operation (ImageBuffer_init RGBAImageBuffer (640::nat, 480::nat) ''pixels'') ''get_size'' =
     Some (PySize (640, 480), ImageBuffer_init RGBAImageBuffer (640, 480) ''pixels'') \<and>
   (\<exists>r. call_operation (ImageBuffer_init RGBAImageBuffer (640::nat, 480::nat) ''pixels'') ''has_alpha'' =
     Some (r, ImageBuffer_init RGBAImageBuffer (640, 480) ''pixels'')) \<and>
   (\<exists>r. call_operation (ImageBuffer_init RGBAImageBuffer (640::nat, 480::nat) ''pixels'') ''has_animation'' =
     Some (r, ImageBuffer_init RGBAImageBuffer (640, 480) ''pixels''))"
  using get_size_has_alpha_has_animation_leave_buffer
    [of RGBAImageBuffer "(640::nat, 480::nat)" "''pixels''"]
  by (simp add: issubclass_def)

text \<open>
  Claim C9. On every \<^verbatim>\<open>RGBImageBuffer\<close> instance \<^verbatim>\<open>has_alpha()\<close> returns \<^verbatim>\<open>False\<close>, on every
  \<^verbatim>\<open>RGBAImageBuffer\<close> instance it returns \<^verbatim>\<open>True\<close>, whatever the size and the data of the
  buffer; \<^verbatim>\<open>has_animation()\<close> returns \<^verbatim>\<open>False\<close> on both.
\<close>

theorem has_alpha_has_animation_values:
  "(buffer_class b = RGBImageBuffer \<longrightarrow>
      map_option fst (call_operation b ''has_alpha'') = Some (PyBool False) \<and>
      map_option fst (call_operation b ''has_animation'') = Some (PyBool False)) \<and>
   (buffer_class b = RGBAImageBuffer \<longrightarrow>
      map_option fst (call_operation b ''has_alpha'') = Some (PyBool True) \<and>
      map_option fst (call_operation b ''has_animation'') = Some (PyBool False))"
  by (simp add: call_operation_def RGBImageBuffer_has_alpha_def
      RGBAImageBuffer_has_alpha_def RGBImageBuffer_has_animation_def
      RGBAImageBuffer_has_animation_def)

theorem has_alpha_has_animation_values_witness:
  "buffer_class (ImageBuffer_init RGBImageBuffer (2::nat, 3::nat) ''abcdef'') = RGBImageBuffer \<and>
   map_option fst (call_operation (ImageBuffer_init RGBImageBuffer (2::nat, 3::nat) ''abcdef'')
     ''has_alpha'') = Some (PyBool False) \<and>
   map_option fst (call_operation (ImageBuffer_init RGBImageBuffer (2::nat, 3::nat) ''abcdef'')
     ''has_animation'') = Some (PyBool False) \<and>
   buffer_class (ImageBuffer_init RGBAImageBuffer (2::nat, 3::nat) ''abcdefgh'') = RGBAImageBuffer \<and>
   map_option fst (call_operation (ImageBuffer_init RGBAImageBuffer (2::nat, 3::nat) ''abcdefgh'')
     ''has_alpha'') = Some (PyBool True) \<and>
   map_option fst (call_operation (ImageBuffer_init RGBAImageBuffer (2::nat, 3::nat) ''abcdefgh'')
     ''has_animation'') = Some (PyBool False)"
  using has_alpha_has_animation_values
      [of "ImageBuffer_init RGBImageBuffer (2::nat, 3::nat) ''abcdef''"]
    has_alpha_has_animation_values
      [of "ImageBuffer_init RGBAImageBuffer (2::nat, 3::nat) ''abcdefgh''"]
  by (simp add: ImageBuffer_init_def)

section \<open>The file classes\<close>

lemma format_name_defined:
  "issubclass c ImageFile \<Longrightarrow>
   \<exists>v. lookup_mro class_format_name (mro c) ''format_name'' = Some v"
  by (cases c) (simp_all add: issubclass_def)

text \<open>
  Claim C10. On every instance of \<^verbatim>\<open>ImageFile\<close> or of one of its subclasses, reading the
  deprecated property \<^verbatim>\<open>original_format\<close> returns the value of the attribute
  \<^verbatim>\<open>format_name\<close>.
\<close>

theorem original_format_is_format_name:
  "issubclass (file_class self) ImageFile \<Longrightarrow>
   \<exists>v. format_name self = Some v \<and> fst (ImageFile_original_format self issued) = Some v"
  using format_name_defined [of "file_class self"]
  by (simp add: format_name_def ImageFile_original_format_def Let_def)

theorem original_format_is_format_name_witness:
  "issubclass (file_class (ImageFile_init TIFFImageFile ''II*'')) ImageFile \<and>
   (\<exists>v::unit pyval. format_name (ImageFile_init TIFFImageFile ''II*'') = Some v \<and>
      fst (ImageFile_original_format (ImageFile_init TIFFImageFile ''II*'') []) = Some v)"
  using original_format_is_format_name [of "ImageFile_init TIFFImageFile ''II*''" "[]"]
  by (simp add: ImageFile_init_def issubclass_def)

end
